theory Spec2Isabelle
  imports Complex_Main
begin

section \<open>Data model\<close>

text \<open>
  The notebook \<^verbatim>\<open>code.ipynb\<close> works on pandas DataFrames of 64-bit floats. A cell
  is modelled as a value of \<open>fl\<close>: not-a-number, the two infinities, or a finite number.
  Finite numbers are exact reals: the rounding of binary64 arithmetic is not modelled, and
  neither are signed zeros. The date index of a frame is left out (no operation below
  reads it; every series combined with a frame comes from the same frame, so index
  alignment is position by position).
\<close>

datatype fl = NaN | PInf | NInf | Fin real

datatype py_error = KeyError | IndexError | ValueError

text \<open>A DataFrame: the column labels in order, and the rows in order (row-major, as
  \<^verbatim>\<open>.values\<close> returns them).\<close>

record frame =
  columns :: "string list"
  rws :: "fl list list"

definition wf_frame :: "frame \<Rightarrow> bool" where
  "wf_frame d = (distinct (columns d) \<and> list_all (\<lambda>r. length r = length (columns d)) (rws d))"

fun index_of :: "'a list \<Rightarrow> 'a \<Rightarrow> nat option" where
  "index_of [] a = None"
| "index_of (x # xs) a = (if x = a then Some 0 else map_option Suc (index_of xs a))"

text \<open>\<^verbatim>\<open>data[name]\<close>: the column as a series; KeyError when there is no such column.\<close>

definition get_col :: "frame \<Rightarrow> string \<Rightarrow> py_error + fl list" where
  "get_col d name =
     (case index_of (columns d) name of
        None \<Rightarrow> Inl KeyError
      | Some j \<Rightarrow> Inr (map (\<lambda>r. r ! j) (rws d)))"

text \<open>\<^verbatim>\<open>data.iloc[k][name]\<close>: one cell; IndexError when the row is out of range,
  KeyError when there is no such column.\<close>

definition iloc_cell :: "frame \<Rightarrow> nat \<Rightarrow> string \<Rightarrow> py_error + fl" where
  "iloc_cell d k name =
     (if length (rws d) \<le> k then Inl IndexError
      else case index_of (columns d) name of
             None \<Rightarrow> Inl KeyError
           | Some j \<Rightarrow> Inr (rws d ! k ! j))"

text \<open>\<^verbatim>\<open>data.iloc[i:j].values\<close>: the rows \<open>i, ..., j - 1\<close> (a slice never raises; it is
  cut at the end of the frame).\<close>

definition iloc_slice :: "frame \<Rightarrow> nat \<Rightarrow> nat \<Rightarrow> fl list list" where
  "iloc_slice d i j = take (j - i) (drop i (rws d))"

section \<open>Sliding windows (\<^verbatim>\<open>create_sequences\<close>)\<close>

text \<open>
  \<^verbatim>\<open>
  def create_sequences(data, window_size):
      sequences = []
      targets = []
      for i in range(len(data) - window_size):
          seq = data.iloc[i:i + window_size].values
          target = data.iloc[i + window_size]["Close"]
          sequences.append(seq)
          targets.append(target)
      return np.array(sequences), np.array(targets)
  \<close>
  The loop runs over the list \<open>[0..<len - window_size]\<close> (empty when the window is not
  shorter than the frame) and carries the two lists it appends to.
\<close>

fun create_sequences_loop ::
  "frame \<Rightarrow> nat \<Rightarrow> nat list \<Rightarrow> fl list list list \<times> fl list
     \<Rightarrow> py_error + (fl list list list \<times> fl list)" where
  "create_sequences_loop d w [] acc = Inr acc"
| "create_sequences_loop d w (i # is) (sequences, targets) =
     (let seq = iloc_slice d i (i + w) in
      case iloc_cell d (i + w) ''Close'' of
        Inl e \<Rightarrow> Inl e
      | Inr target \<Rightarrow> create_sequences_loop d w is (sequences @ [seq], targets @ [target]))"

definition create_sequences ::
  "frame \<Rightarrow> nat \<Rightarrow> py_error + (fl list list list \<times> fl list)" where
  "create_sequences d w = create_sequences_loop d w [0..<length (rws d) - w] ([], [])"

section \<open>The baseline stage\<close>

text \<open>\<^verbatim>\<open>series.shift(p)\<close>: the values move \<open>p\<close> places down (up when \<open>p\<close> is negative);
  the places left free hold NaN and the length stays.\<close>

definition shift :: "int \<Rightarrow> fl list \<Rightarrow> fl list" where
  "shift p xs =
     (let n = length xs in
      if 0 \<le> p then take n (replicate (nat p) NaN @ xs)
      else drop (nat (- p)) xs @ replicate (min n (nat (- p))) NaN)"

text \<open>\<^verbatim>\<open>data[name] = values\<close>: an existing column is overwritten in place, a new one is
  appended as the last column; ValueError when the lengths differ.\<close>

definition set_col :: "frame \<Rightarrow> string \<Rightarrow> fl list \<Rightarrow> py_error + frame" where
  "set_col d name vs =
     (if length vs \<noteq> length (rws d) then Inl ValueError
      else case index_of (columns d) name of
             Some j \<Rightarrow> Inr (d\<lparr>rws := map2 (\<lambda>r v. r[j := v]) (rws d) vs\<rparr>)
           | None \<Rightarrow> Inr (d\<lparr>columns := columns d @ [name],
                               rws := map2 (\<lambda>r v. r @ [v]) (rws d) vs\<rparr>))"

definition isna :: "fl \<Rightarrow> bool" where
  "isna x = (x = NaN)"

text \<open>\<^verbatim>\<open>data.dropna(inplace=True)\<close>, with no \<^verbatim>\<open>subset\<close>: a row goes when any of its
  cells, in whatever column, is NaN. (An infinity is not a missing value.)\<close>

definition dropna :: "frame \<Rightarrow> frame" where
  "dropna d = d\<lparr>rws := filter (\<lambda>r. \<not> list_ex isna r) (rws d)\<rparr>"

text \<open>\<^verbatim>\<open>data.drop(columns=names)\<close>: KeyError when a label is not a column.\<close>

definition drop_columns :: "frame \<Rightarrow> string list \<Rightarrow> py_error + frame" where
  "drop_columns d names =
     (if \<not> list_all (\<lambda>c. c \<in> set (columns d)) names then Inl KeyError
      else Inr \<lparr>columns = filter (\<lambda>c. c \<notin> set names) (columns d),
                rws = map (\<lambda>r. map snd (filter (\<lambda>(c, v). c \<notin> set names) (zip (columns d) r)))
                        (rws d)\<rparr>)"

text \<open>
  \<^verbatim>\<open>
  data['Target'] = data['Close'].shift(-1)
  data.dropna(inplace=True)
  X = data.drop(columns=['Close', 'Target'])
  y = data['Target']
  \<close>
  The first two statements change \<^verbatim>\<open>data\<close> in place: \<open>baseline_target\<close> returns the new
  frame, which is also the frame the later cells see under the name \<^verbatim>\<open>data\<close>.
\<close>

definition baseline_target :: "frame \<Rightarrow> py_error + frame" where
  "baseline_target data =
     (case get_col data ''Close'' of
        Inl e \<Rightarrow> Inl e
      | Inr close \<Rightarrow>
          (case set_col data ''Target'' (shift (- 1) close) of
             Inl e \<Rightarrow> Inl e
           | Inr data1 \<Rightarrow> Inr (dropna data1)))"

definition baseline_Xy :: "frame \<Rightarrow> py_error + (frame \<times> fl list)" where
  "baseline_Xy data =
     (case drop_columns data [''Close'', ''Target''] of
        Inl e \<Rightarrow> Inl e
      | Inr X \<Rightarrow>
          (case get_col data ''Target'' of
             Inl e \<Rightarrow> Inl e
           | Inr y \<Rightarrow> Inr (X, y)))"

text \<open>A small frame of four trading days, used to instantiate the theorems below.\<close>

definition ex_frame :: frame where
  "ex_frame = \<lparr>columns = [''Open'', ''Close'', ''SMA_5''],
               rws = [[Fin 1, Fin 2, Fin 3], [Fin 4, Fin 5, Fin 6],
                      [Fin 7, Fin 8, Fin 9], [Fin 10, Fin 11, Fin 12]]\<rparr>"

section \<open>The post-normalizer's row dropping\<close>

text \<open>
  \<^verbatim>\<open>
  data_with_indicators.dropna(inplace=True)
  indicators_to_normalize = ['SMA_5', 'SMA_10', 'SMA_20', 'EMA_10',
                             'RSI_14', 'Volatility_10', 'ATR_14']
  \<close>
  The row dropping is \<open>dropna\<close> above. The list of indicator columns is used by the
  rescaling that follows it.
\<close>

definition indicators_to_normalize :: "string list" where
  "indicators_to_normalize =
     [''SMA_5'', ''SMA_10'', ''SMA_20'', ''EMA_10'', ''RSI_14'', ''Volatility_10'', ''ATR_14'']"

text \<open>The rows the specification names: those in which every indicator value is
  defined. This definition follows the specification's words, not the code.\<close>

definition indicators_defined :: "frame \<Rightarrow> fl list \<Rightarrow> bool" where
  "indicators_defined d r =
     list_all (\<lambda>name. case index_of (columns d) name of
                        None \<Rightarrow> False
                      | Some j \<Rightarrow> \<not> isna (r ! j)) indicators_to_normalize"

text \<open>Two days with all seven indicators defined; the volume of the first day is
  missing in the raw data.\<close>

definition ex_gap :: frame where
  "ex_gap = \<lparr>columns = [''Close'', ''Volume'', ''SMA_5'', ''SMA_10'', ''SMA_20'', ''EMA_10'',
                         ''RSI_14'', ''Volatility_10'', ''ATR_14''],
             rws = [[Fin 1, NaN, Fin 1, Fin 1, Fin 1, Fin 1, Fin 50, Fin 0, Fin 1],
                    [Fin 1, Fin 7, Fin 1, Fin 1, Fin 1, Fin 1, Fin 50, Fin 0, Fin 1]]\<rparr>"

section \<open>Train/test splits\<close>

text \<open>
  The sequence models (twice in the notebook, with the same three lines):
  \<^verbatim>\<open>
  train_size = int(len(X) * 0.8)
  X_train, X_test = X[:train_size], X[train_size:]
  y_train, y_test = y[:train_size], y[train_size:]
  \<close>
  \<^verbatim>\<open>int\<close> truncates a non-negative number to its floor.
\<close>

definition sequence_split :: "'a list \<Rightarrow> 'b list \<Rightarrow> 'a list \<times> 'a list \<times> 'b list \<times> 'b list" where
  "sequence_split X y =
     (let train_size = nat \<lfloor>real (length X) * 0.8\<rfloor>
      in (take train_size X, drop train_size X, take train_size y, drop train_size y))"

text \<open>
  The baseline: \<^verbatim>\<open>train_test_split(X, y, test_size=0.2, shuffle=False)\<close> of scikit-learn.
  Without shuffling it takes \<open>n_test = ceil(test_size * n_samples)\<close> rows for the test set
  and the \<open>n_samples - n_test\<close> rows before them for training; it raises ValueError when
  the two inputs differ in length or the training set would be empty.
\<close>

definition train_test_split ::
  "'a list \<Rightarrow> 'b list \<Rightarrow> py_error + ('a list \<times> 'a list \<times> 'b list \<times> 'b list)" where
  "train_test_split X y =
     (let n_samples = length X;
          n_test = nat \<lceil>0.2 * real n_samples\<rceil>;
          n_train = n_samples - n_test
      in if length y \<noteq> n_samples \<or> n_train = 0 then Inl ValueError
         else Inr (take n_train X, take n_test (drop n_train X),
                   take n_train y, take n_test (drop n_train y)))"

text \<open>
  Dates. The loader
  \<^verbatim>\<open>
  apple_data = pd.read_csv(file_path)
  apple_data['Date'] = pd.to_datetime(apple_data['Date'])
  apple_data.set_index('Date', inplace=True)
  \<close>
  makes the dates the index of the frame and keeps the rows in the order of the file;
  no cell of the notebook sorts them. Every later stage reads and writes the rows with
  their dates in that order, and a split slices the index together with the rows. A date
  is a day number here, and a dated example is the pair of its date and the example: for
  the baseline the date of the row, for a sequence the date of the row it predicts
  (\<open>index[i + window_size]\<close> for the \<open>i\<close>-th sequence).
\<close>

type_synonym date = nat

definition dated :: "date list \<Rightarrow> 'a list \<Rightarrow> (date \<times> 'a) list" where
  "dated index xs = zip index xs"

text \<open>The target dates of the sequences of \<^verbatim>\<open>create_sequences(data, window_size)\<close>.\<close>

definition sequence_dates :: "date list \<Rightarrow> nat \<Rightarrow> date list" where
  "sequence_dates index w = drop w index"

text \<open>Every training example is earlier than every test example.\<close>

definition train_before_test :: "(date \<times> 'a) list \<Rightarrow> (date \<times> 'a) list \<Rightarrow> bool" where
  "train_before_test train test = list_all (\<lambda>a. list_all (\<lambda>b. fst a < fst b) test) train"

text \<open>Seven days of a price history exported newest first, and the same days oldest
  first.\<close>

definition ex_newest_first :: "date list" where
  "ex_newest_first = [7, 6, 5, 4, 3, 2, 1]"

definition ex_oldest_first :: "date list" where
  "ex_oldest_first = [1, 2, 3, 4, 5, 6, 7]"

definition ex_rows :: "fl list list" where
  "ex_rows = [[Fin 1], [Fin 2], [Fin 3], [Fin 4], [Fin 5], [Fin 6], [Fin 7]]"

definition ex_targets :: "fl list" where
  "ex_targets = [Fin 2, Fin 3, Fin 4, Fin 5, Fin 6, Fin 7, Fin 8]"

section \<open>The hyperparameter search\<close>

datatype arch = LSTM | GRU

text \<open>One entry of \<^verbatim>\<open>results\<close>: the dictionary the loop appends, with its six keys.\<close>

record 'm result =
  model :: arch
  window_size :: nat
  units :: nat
  batch_size :: nat
  learning_rate :: real
  mse :: 'm

definition window_sizes :: "nat list" where
  "window_sizes = [10, 20, 30]"

definition units_options :: "nat list" where
  "units_options = [32, 64, 128]"

definition batch_sizes :: "nat list" where
  "batch_sizes = [32, 64]"

definition learning_rates :: "real list" where
  "learning_rates = [0.001, 0.0005]"

text \<open>
  \<^verbatim>\<open>
  for window_size, units, batch_size, learning_rate in product(window_sizes, units_options,
                                                               batch_sizes, learning_rates):
      X, y = create_sequences(data, window_size)
      train_size = int(len(X) * 0.8)
      X_train, X_test = X[:train_size], X[train_size:]
      y_train, y_test = y[:train_size], y[train_size:]
      ...
      lstm_model = create_lstm_model((X_train.shape[1], X_train.shape[2]), units, learning_rate)
      lstm_model.fit(X_train, y_train, epochs=5, batch_size=batch_size, verbose=0)
      lstm_mse = lstm_model.evaluate(X_test, y_test, verbose=0)
      (the same for GRU)
      results.append({"model": "LSTM", ..., "mse": lstm_mse})
      results.append({"model": "GRU", ..., "mse": gru_mse})
  \<close>
  \<^verbatim>\<open>itertools.product\<close> enumerates the tuples with the last list varying fastest, which
  is \<open>List.product\<close> nested to the right.
\<close>

text \<open>
  Building, training and evaluating a Keras model. The test error the trained network
  reaches is a parameter \<open>net\<close>: given the architecture, the units, the learning rate, the
  batch size, the training set and the test set, it is the number \<^verbatim>\<open>evaluate\<close> returns.
  \<^verbatim>\<open>fit\<close> on an empty training set raises ValueError. (The test set \<^verbatim>\<open>X[train_size:]\<close> is
  never empty when there is a window at all.)
\<close>

definition keras_fit_evaluate ::
  "(arch \<Rightarrow> nat \<Rightarrow> real \<Rightarrow> nat \<Rightarrow> fl list list list \<times> fl list \<Rightarrow> fl list list list \<times> fl list \<Rightarrow> 'm)
     \<Rightarrow> arch \<Rightarrow> nat \<Rightarrow> real \<Rightarrow> nat
     \<Rightarrow> fl list list list \<times> fl list \<Rightarrow> fl list list list \<times> fl list \<Rightarrow> py_error + 'm" where
  "keras_fit_evaluate net a u lr b train test =
     (if fst train = [] then Inl ValueError else Inr (net a u lr b train test))"

text \<open>
  One pass of the loop, in the order of the source: the windows, the split, the LSTM
  (its input shape first: when \<^verbatim>\<open>create_sequences\<close> returns no window, \<^verbatim>\<open>np.array([])\<close> has
  the shape \<open>(0,)\<close> and \<^verbatim>\<open>X_train.shape[1]\<close> raises IndexError), the GRU, and the two entries
  appended.
\<close>

fun grid_search_loop ::
  "(arch \<Rightarrow> nat \<Rightarrow> real \<Rightarrow> nat \<Rightarrow> fl list list list \<times> fl list \<Rightarrow> fl list list list \<times> fl list \<Rightarrow> 'm)
     \<Rightarrow> frame \<Rightarrow> (nat \<times> nat \<times> nat \<times> real) list \<Rightarrow> 'm result list
     \<Rightarrow> py_error + 'm result list" where
  "grid_search_loop net d [] results = Inr results"
| "grid_search_loop net d ((w, u, b, lr) # rest) results =
     (case create_sequences d w of
        Inl e \<Rightarrow> Inl e
      | Inr (X, y) \<Rightarrow>
          (case sequence_split X y of
             (X_train, X_test, y_train, y_test) \<Rightarrow>
               if X = [] then Inl IndexError
               else
                 case keras_fit_evaluate net LSTM u lr b (X_train, y_train) (X_test, y_test) of
                   Inl e \<Rightarrow> Inl e
                 | Inr lstm_mse \<Rightarrow>
                     (case keras_fit_evaluate net GRU u lr b (X_train, y_train) (X_test, y_test) of
                        Inl e \<Rightarrow> Inl e
                      | Inr gru_mse \<Rightarrow>
                          grid_search_loop net d rest
                            (results @
                             [\<lparr>model = LSTM, window_size = w, units = u, batch_size = b,
                                learning_rate = lr, mse = lstm_mse\<rparr>,
                              \<lparr>model = GRU, window_size = w, units = u, batch_size = b,
                                learning_rate = lr, mse = gru_mse\<rparr>]))))"

definition grid :: "(nat \<times> nat \<times> nat \<times> real) list" where
  "grid = List.product window_sizes
            (List.product units_options (List.product batch_sizes learning_rates))"

definition grid_search ::
  "(arch \<Rightarrow> nat \<Rightarrow> real \<Rightarrow> nat \<Rightarrow> fl list list list \<times> fl list \<Rightarrow> fl list list list \<times> fl list \<Rightarrow> 'm)
     \<Rightarrow> frame \<Rightarrow> py_error + 'm result list" where
  "grid_search net d = grid_search_loop net d grid []"

text \<open>What identifies an entry of the results table: the model and the four
  hyperparameters.\<close>

definition config :: "'m result \<Rightarrow> arch \<times> nat \<times> nat \<times> nat \<times> real" where
  "config r = (model r, window_size r, units r, batch_size r, learning_rate r)"

text \<open>Thirty-two days of a flat price: with the widest window there are two sequences,
  one to train on and one to test on. With thirty-one days there is one, and nothing to
  train on.\<close>

definition ex_flat :: frame where
  "ex_flat = \<lparr>columns = [''Close''], rws = replicate 32 [Fin 0]\<rparr>"

definition ex_short :: frame where
  "ex_short = \<lparr>columns = [''Close''], rws = replicate 31 [Fin 0]\<rparr>"

section \<open>The indicator engine\<close>

subsection \<open>Arithmetic on cells\<close>

text \<open>
  The operations of IEEE arithmetic on the special values, as numpy applies them to a
  series: NaN propagates, \<open>inf - inf\<close> and \<open>inf / inf\<close> are NaN, a non-zero number divided
  by zero is an infinity (zero is taken as positive) and \<open>0 / 0\<close> is NaN. On finite values
  the operations are exact.
\<close>

fun fneg :: "fl \<Rightarrow> fl" where
  "fneg NaN = NaN"
| "fneg PInf = NInf"
| "fneg NInf = PInf"
| "fneg (Fin x) = Fin (- x)"

fun fabs :: "fl \<Rightarrow> fl" where
  "fabs NaN = NaN"
| "fabs PInf = PInf"
| "fabs NInf = PInf"
| "fabs (Fin x) = Fin \<bar>x\<bar>"

fun fadd :: "fl \<Rightarrow> fl \<Rightarrow> fl" where
  "fadd (Fin x) (Fin y) = Fin (x + y)"
| "fadd NaN b = NaN"
| "fadd a NaN = NaN"
| "fadd PInf NInf = NaN"
| "fadd NInf PInf = NaN"
| "fadd PInf b = PInf"
| "fadd a PInf = PInf"
| "fadd NInf b = NInf"
| "fadd a NInf = NInf"

definition fsub :: "fl \<Rightarrow> fl \<Rightarrow> fl" where
  "fsub a b = fadd a (fneg b)"


text \<open>\<open>a < b\<close> on cells; every comparison with NaN is false.\<close>

fun fless :: "fl \<Rightarrow> fl \<Rightarrow> bool" where
  "fless NaN b = False"
| "fless a NaN = False"
| "fless (Fin x) (Fin y) = (x < y)"
| "fless NInf NInf = False"
| "fless NInf b = True"
| "fless a PInf = (a \<noteq> PInf)"
| "fless a b = False"

definition is_finite :: "fl \<Rightarrow> bool" where
  "is_finite a = (case a of Fin x \<Rightarrow> True | _ \<Rightarrow> False)"

definition the_fin :: "fl \<Rightarrow> real" where
  "the_fin a = (case a of Fin x \<Rightarrow> x | _ \<Rightarrow> 0)"

subsection \<open>Operations on series\<close>



text \<open>
  \<^verbatim>\<open>s.rolling(window=n).mean()\<close>: at place \<open>t\<close> the mean of the \<open>n\<close> values ending at \<open>t\<close>.
  With the default \<^verbatim>\<open>min_periods\<close> (the window size) the result is NaN unless the window
  holds \<open>n\<close> valid observations: it is NaN in the first \<open>n - 1\<close> places and wherever the
  window contains a NaN. pandas turns an infinity into NaN before it aggregates.
\<close>

definition rolling_mean :: "nat \<Rightarrow> fl list \<Rightarrow> fl list" where
  "rolling_mean n xs =
     map (\<lambda>t. if t + 1 < n then NaN
               else let win = take n (drop (t + 1 - n) xs)
                    in if list_all is_finite win then Fin (sum_list (map the_fin win) / real n)
                       else NaN)
         [0..<length xs]"

text \<open>\<^verbatim>\<open>pd.concat([a, b, c], axis=1).max(axis=1)\<close>: the greatest of the values of a row
  that are not NaN (\<^verbatim>\<open>skipna\<close> is on by default); NaN when all of them are NaN.\<close>

definition row_max :: "fl list \<Rightarrow> fl" where
  "row_max r =
     (case filter (\<lambda>x. \<not> isna x) r of
        [] \<Rightarrow> NaN
      | x # xs \<Rightarrow> foldl (\<lambda>a b. if fless a b then b else a) x xs)"

subsection \<open>RSI and ATR\<close>




text \<open>
  \<^verbatim>\<open>
  high_low = normalized_data['High'] - normalized_data['Low']
  high_close = (normalized_data['High'] - normalized_data['Close'].shift()).abs()
  low_close = (normalized_data['Low'] - normalized_data['Close'].shift()).abs()
  true_range = pd.concat([high_low, high_close, low_close], axis=1).max(axis=1)
  normalized_data['ATR_14'] = true_range.rolling(window=14).mean()
  \<close>
\<close>

definition true_range :: "fl list \<Rightarrow> fl list \<Rightarrow> fl list \<Rightarrow> fl list" where
  "true_range high low close =
     (let high_low = map2 fsub high low;
          high_close = map fabs (map2 fsub high (shift 1 close));
          low_close = map fabs (map2 fsub low (shift 1 close))
      in map (\<lambda>(a, b, c). row_max [a, b, c]) (zip high_low (zip high_close low_close)))"

definition ATR_14 :: "fl list \<Rightarrow> fl list \<Rightarrow> fl list \<Rightarrow> fl list" where
  "ATR_14 high low close = rolling_mean 14 (true_range high low close)"

text \<open>
  The true range and the ATR as the specification words them, for finite prices: the
  greatest of high minus low, high minus previous close and low minus previous close, and
  from row 14 on the mean of the fourteen most recent true ranges, undefined before. These
  two definitions follow the specification's words, not the code.
\<close>

definition true_range_spec :: "real list \<Rightarrow> real list \<Rightarrow> real list \<Rightarrow> nat \<Rightarrow> real" where
  "true_range_spec hs ls cs k =
     max (hs ! k - ls ! k) (max (hs ! k - cs ! (k - 1)) (ls ! k - cs ! (k - 1)))"

definition ATR_14_spec :: "real list \<Rightarrow> real list \<Rightarrow> real list \<Rightarrow> nat \<Rightarrow> fl" where
  "ATR_14_spec hs ls cs t =
     (if t < 14 then NaN
      else Fin (sum_list (map (true_range_spec hs ls cs) [t - 13..<t + 1]) / 14))"

text \<open>The true range of the code, for finite prices: with absolute values, and at
  row 0, which has no previous close, high minus low alone.\<close>

definition true_range_abs :: "real list \<Rightarrow> real list \<Rightarrow> real list \<Rightarrow> nat \<Rightarrow> real" where
  "true_range_abs hs ls cs k =
     (if k = 0 then hs ! 0 - ls ! 0
      else max (hs ! k - ls ! k) (max \<bar>hs ! k - cs ! (k - 1)\<bar> \<bar>ls ! k - cs ! (k - 1)\<bar>))"

text \<open>Fifteen days that each open below the previous close: high 1/2, low 1/4,
  close 1 (each column is scaled on its own, so a close above the high is usual).\<close>

definition ex_high :: "real list" where
  "ex_high = replicate 15 (1 / 2)"

definition ex_low :: "real list" where
  "ex_low = replicate 15 (1 / 4)"

definition ex_close :: "real list" where
  "ex_close = replicate 15 1"



section \<open>Properties of the sliding windows\<close>

lemma index_of_Some_iff: "(\<exists>j. index_of xs a = Some j) \<longleftrightarrow> a \<in> set xs"
  by (induction xs) auto

lemma index_of_SomeD: "index_of xs a = Some j \<Longrightarrow> j < length xs \<and> xs ! j = a"
  by (induction xs arbitrary: j) (auto split: if_splits)

lemma create_sequences_loop_eq:
  assumes "index_of (columns d) ''Close'' = Some j"
    and "\<forall>i \<in> set is. i + w < length (rws d)"
  shows "create_sequences_loop d w is (ss, ts) =
           Inr (ss @ map (\<lambda>i. iloc_slice d i (i + w)) is, ts @ map (\<lambda>i. rws d ! (i + w) ! j) is)"
  using assms
  by (induction "is" arbitrary: ss ts) (simp_all add: iloc_cell_def)

lemma create_sequences_eq:
  assumes "index_of (columns d) ''Close'' = Some j"
  shows "create_sequences d w =
           Inr (map (\<lambda>i. iloc_slice d i (i + w)) [0..<length (rws d) - w],
                map (\<lambda>i. rws d ! (i + w) ! j) [0..<length (rws d) - w])"
proof -
  have "\<forall>i \<in> set [0..<length (rws d) - w]. i + w < length (rws d)"
    by auto
  from create_sequences_loop_eq [OF assms this, of "[]" "[]"]
  show ?thesis
    by (simp add: create_sequences_def)
qed

lemma iloc_slice_window:
  assumes "i + w \<le> length (rws d)"
  shows "iloc_slice d i (i + w) = map (\<lambda>k. rws d ! k) [i..<i + w]"
proof (rule nth_equalityI)
  show "length (iloc_slice d i (i + w)) = length (map (\<lambda>k. rws d ! k) [i..<i + w])"
    using assms by (simp add: iloc_slice_def)
next
  fix k assume "k < length (iloc_slice d i (i + w))"
  then have "k < w" by (simp add: iloc_slice_def)
  then show "iloc_slice d i (i + w) ! k = map (\<lambda>k. rws d ! k) [i..<i + w] ! k"
    using assms by (simp add: iloc_slice_def)
qed

text \<open>
  C4. For a frame with a \<open>Close\<close> column and a window size \<open>w\<close> with \<open>0 < w < len(d)\<close>,
  \<open>create_sequences\<close> returns (without raising) exactly \<open>len(d) - w\<close> sequences and as
  many targets; the \<open>i\<close>-th sequence is the rows \<open>i, ..., i + w - 1\<close> of the frame in order,
  and the \<open>i\<close>-th target is the \<open>Close\<close> cell of row \<open>i + w\<close>.
\<close>

theorem create_sequences_windows:
  assumes "index_of (columns d) ''Close'' = Some j"
    and "0 < w" and "w < length (rws d)"
  shows "\<exists>X y. create_sequences d w = Inr (X, y)
           \<and> length X = length (rws d) - w \<and> length y = length (rws d) - w
           \<and> (\<forall>i < length (rws d) - w.
                 X ! i = map (\<lambda>k. rws d ! k) [i..<i + w] \<and> y ! i = rws d ! (i + w) ! j)"
  using create_sequences_eq [OF assms(1), of w] iloc_slice_window [of _ w d]
  by simp

theorem create_sequences_windows_witness:
  "index_of (columns ex_frame) ''Close'' = Some 1 \<and> (0::nat) < 2 \<and> 2 < length (rws ex_frame)
   \<and> (\<exists>X y. create_sequences ex_frame 2 = Inr (X, y) \<and> length X = 2
          \<and> X ! 1 = [[Fin 4, Fin 5, Fin 6], [Fin 7, Fin 8, Fin 9]] \<and> y ! 1 = Fin 11)"
proof -
  have h1: "index_of (columns ex_frame) ''Close'' = Some 1"
    by (simp add: ex_frame_def)
  have h2: "(0::nat) < 2" by simp
  have h3: "2 < length (rws ex_frame)" by (simp add: ex_frame_def)
  from create_sequences_windows [OF h1 h2 h3]
  obtain X y where c: "create_sequences ex_frame 2 = Inr (X, y)"
      "length X = length (rws ex_frame) - 2"
      "\<forall>i < length (rws ex_frame) - 2.
          X ! i = map (\<lambda>k. rws ex_frame ! k) [i..<i + 2] \<and> y ! i = rws ex_frame ! (i + 2) ! 1"
    by blast
  have "(1::nat) < length (rws ex_frame) - 2" by (simp add: ex_frame_def)
  with c(3) have "X ! 1 = map (\<lambda>k. rws ex_frame ! k) [1..<1 + 2] \<and> y ! 1 = rws ex_frame ! (1 + 2) ! 1"
    by blast
  moreover have "[1..<1 + 2] = [1, 2::nat]" by (simp add: upt_rec)
  ultimately have "X ! 1 = [[Fin 4, Fin 5, Fin 6], [Fin 7, Fin 8, Fin 9]] \<and> y ! 1 = Fin 11"
    by (simp add: ex_frame_def)
  with c(1,2) h1 h2 h3 show ?thesis
    by (auto simp: ex_frame_def)
qed

section \<open>Properties of the baseline stage\<close>

lemma shift_neg1: "shift (- 1) xs = drop 1 xs @ replicate (min (length xs) 1) NaN"
  by (simp add: shift_def)

lemma get_col_Some:
  "index_of (columns d) name = Some j \<Longrightarrow> get_col d name = Inr (map (\<lambda>r. r ! j) (rws d))"
  by (simp add: get_col_def)

lemma index_of_None_iff: "index_of xs a = None \<longleftrightarrow> a \<notin> set xs"
  by (induction xs) auto

lemma index_of_append_new:
  "a \<notin> set xs \<Longrightarrow> index_of (xs @ [a]) a = Some (length xs)"
  by (induction xs) auto

lemma index_of_append_old:
  "index_of xs a = Some j \<Longrightarrow> index_of (xs @ ys) a = Some j"
  by (induction xs arbitrary: j) (auto split: if_splits)

text \<open>Appending the shifted column and dropping the rows with NaN.\<close>

lemma filter_target_rows:
  assumes nonan: "list_all (\<lambda>r. \<not> list_ex isna r) rs"
    and lens: "list_all (\<lambda>r. j < length r) rs"
  shows "filter (\<lambda>r. \<not> list_ex isna r)
           (map2 (\<lambda>r v. r @ [v]) rs (shift (- 1) (map (\<lambda>r. r ! j) rs)))
         = map (\<lambda>t. rs ! t @ [rs ! Suc t ! j]) [0..<length rs - 1]"
proof (cases rs rule: rev_cases)
  case Nil
  then show ?thesis by (simp add: shift_def)
next
  case (snoc rs' rl)
  define cs where "cs = drop 1 (map (\<lambda>r. r ! j) rs)"
  have sh: "shift (- 1) (map (\<lambda>r. r ! j) rs) = cs @ [NaN]"
    using snoc by (simp add: shift_neg1 cs_def)
  have len: "length rs' = length cs"
    using snoc by (simp add: cs_def)
  have lrs: "length rs = Suc (length rs')"
    using snoc by simp
  have csn: "\<And>t. t < length rs' \<Longrightarrow> cs ! t = rs ! Suc t ! j"
    using lrs by (simp add: cs_def)
  have z: "map2 (\<lambda>r v. r @ [v]) rs (shift (- 1) (map (\<lambda>r. r ! j) rs))
             = map2 (\<lambda>r v. r @ [v]) rs' cs @ [rl @ [NaN]]"
  proof -
    have "map2 (\<lambda>r v. r @ [v]) rs (cs @ [NaN]) = map2 (\<lambda>r v. r @ [v]) rs' cs @ [rl @ [NaN]]"
      using len snoc by simp
    then show ?thesis
      unfolding sh .
  qed
  have m: "map2 (\<lambda>r v. r @ [v]) rs' cs = map (\<lambda>t. rs ! t @ [rs ! Suc t ! j]) [0..<length rs - 1]"
  proof (rule nth_equalityI)
    show "length (map2 (\<lambda>r v. r @ [v]) rs' cs) = length (map (\<lambda>t. rs ! t @ [rs ! Suc t ! j]) [0..<length rs - 1])"
      using snoc len by simp
  next
    fix t assume "t < length (map2 (\<lambda>r v. r @ [v]) rs' cs)"
    then have t: "t < length rs'" using len by simp
    then show "map2 (\<lambda>r v. r @ [v]) rs' cs ! t = map (\<lambda>t. rs ! t @ [rs ! Suc t ! j]) [0..<length rs - 1] ! t"
      using snoc len csn [OF t] by (simp add: nth_append)
  qed
  have keep: "\<forall>r \<in> set (map (\<lambda>t. rs ! t @ [rs ! Suc t ! j]) [0..<length rs - 1]). \<not> list_ex isna r"
  proof
    fix r assume "r \<in> set (map (\<lambda>t. rs ! t @ [rs ! Suc t ! j]) [0..<length rs - 1])"
    then obtain t where t: "t < length rs - 1" and r: "r = rs ! t @ [rs ! Suc t ! j]"
      by auto
    have a: "\<not> list_ex isna (rs ! t)" using nonan t by (simp add: list_all_length)
    have "\<not> list_ex isna (rs ! Suc t)" "j < length (rs ! Suc t)"
      using nonan lens t by (simp_all add: list_all_length)
    then have "\<not> isna (rs ! Suc t ! j)"
      by (auto simp: list_ex_iff)
    with a r show "\<not> list_ex isna r" by (simp add: list_ex_iff)
  qed
  have "filter (\<lambda>r. \<not> list_ex isna r) (map (\<lambda>t. rs ! t @ [rs ! Suc t ! j]) [0..<length rs - 1])
          = map (\<lambda>t. rs ! t @ [rs ! Suc t ! j]) [0..<length rs - 1]"
    using keep by (simp only: filter_id_conv) 
  then show ?thesis
    unfolding z m by (simp add: isna_def)
qed


lemma wf_frame_row:
  "wf_frame d \<Longrightarrow> t < length (rws d) \<Longrightarrow> length (rws d ! t) = length (columns d)"
  by (simp add: wf_frame_def list_all_length)

lemma baseline_target_eq:
  assumes wf: "wf_frame d"
    and close: "index_of (columns d) ''Close'' = Some j"
    and fresh: "''Target'' \<notin> set (columns d)"
    and nonan: "list_all (\<lambda>r. \<not> list_ex isna r) (rws d)"
  shows "baseline_target d =
           Inr \<lparr>columns = columns d @ [''Target''],
                rws = map (\<lambda>t. rws d ! t @ [rws d ! Suc t ! j]) [0..<length (rws d) - 1]\<rparr>"
proof -
  have j: "j < length (columns d)"
    using index_of_SomeD [OF close] by simp
  have lens: "list_all (\<lambda>r. j < length r) (rws d)"
    using wf j by (simp add: wf_frame_def list_all_length)
  have none: "index_of (columns d) ''Target'' = None"
    using fresh by (simp add: index_of_None_iff)
  have len: "length (shift (- 1) (map (\<lambda>r. r ! j) (rws d))) = length (rws d)"
    by (simp add: shift_neg1)
  show ?thesis
    unfolding baseline_target_def get_col_Some [OF close]
    by (simp add: set_col_def len none dropna_def filter_target_rows [OF nonan lens])
qed

lemma remove_col:
  assumes "distinct cs" and "length r = length cs" and "index_of cs a = Some j"
  shows "map snd (filter (\<lambda>(c, v). c \<noteq> a) (zip cs r)) = take j r @ drop (Suc j) r"
  using assms
proof (induction cs arbitrary: r j)
  case Nil
  then show ?case by simp
next
  case (Cons c cs)
  then obtain v r' where r: "r = v # r'" "length r' = length cs"
    by (cases r) auto
  show ?case
  proof (cases "c = a")
    case True
    then have "a \<notin> set cs" using Cons.prems(1) by simp
    then have "filter (\<lambda>(c, v). c \<noteq> a) (zip cs r') = zip cs r'"
      by (auto simp: filter_id_conv dest: set_zip_leftD)
    with True Cons.prems r show ?thesis by simp
  next
    case False
    with Cons.prems obtain j' where j': "j = Suc j'" "index_of cs a = Some j'"
      by auto
    with Cons.IH [of r' j'] Cons.prems(1) r False show ?thesis by simp
  qed
qed

text \<open>
  C3. In the baseline stage, on a frame without missing values (as the post-normalizer
  leaves it), the new column \<open>Target\<close> holds at row \<open>t\<close> the \<open>Close\<close> of row \<open>t + 1\<close>; the
  last row, whose target is NaN, is the one row that \<open>dropna\<close> removes; the target vector
  \<open>y\<close> is that column, and the feature row \<open>t\<close> of \<open>X\<close> is row \<open>t\<close> of the frame itself
  without its \<open>Close\<close> cell (and without the target).
\<close>

theorem baseline_next_day_target:
  assumes wf: "wf_frame d"
    and close: "index_of (columns d) ''Close'' = Some j"
    and fresh: "''Target'' \<notin> set (columns d)"
    and nonan: "list_all (\<lambda>r. \<not> list_ex isna r) (rws d)"
  shows "\<exists>data X y. baseline_target d = Inr data \<and> baseline_Xy data = Inr (X, y)
           \<and> length (rws data) = length (rws d) - 1
           \<and> length y = length (rws d) - 1 \<and> length (rws X) = length (rws d) - 1
           \<and> columns X = filter (\<lambda>c. c \<noteq> ''Close'') (columns d)
           \<and> (\<forall>t < length (rws d) - 1.
                 rws data ! t = rws d ! t @ [rws d ! Suc t ! j]
                 \<and> y ! t = rws d ! Suc t ! j
                 \<and> rws X ! t = take j (rws d ! t) @ drop (Suc j) (rws d ! t))"
proof -
  define data where "data = \<lparr>columns = columns d @ [''Target''],
      rws = map (\<lambda>t. rws d ! t @ [rws d ! Suc t ! j]) [0..<length (rws d) - 1]\<rparr>"
  have bt: "baseline_target d = Inr data"
    using baseline_target_eq [OF assms] by (simp add: data_def)
  have dist: "distinct (columns d)" using wf by (simp add: wf_frame_def)
  have tgt: "index_of (columns data) ''Target'' = Some (length (columns d))"
    using fresh by (simp add: data_def index_of_append_new)
  have cin: "''Close'' \<in> set (columns d)"
    using close index_of_Some_iff [of "columns d" "''Close''"] by simp
  have cols: "filter (\<lambda>c. c \<notin> set [''Close'', ''Target'']) (columns data)
                = filter (\<lambda>c. c \<noteq> ''Close'') (columns d)"
    using fresh by (auto simp: data_def intro: filter_cong)
  have row: "map snd (filter (\<lambda>(c, v). c \<notin> set [''Close'', ''Target'']) (zip (columns data) (rws data ! t)))
               = take j (rws d ! t) @ drop (Suc j) (rws d ! t)"
    if t: "t < length (rws d) - 1" for t
  proof -
    have l: "length (rws d ! t) = length (columns d)"
      using wf_frame_row [OF wf, of t] t by simp
    have "filter (\<lambda>(c, v). c \<notin> set [''Close'', ''Target'']) (zip (columns d) (rws d ! t))
            = filter (\<lambda>(c, v). c \<noteq> ''Close'') (zip (columns d) (rws d ! t))"
      using fresh by (auto intro!: filter_cong dest: set_zip_leftD)
    then show ?thesis
      using t l remove_col [OF dist l close] by (simp add: data_def)
  qed
  define X where "X = \<lparr>columns = filter (\<lambda>c. c \<noteq> ''Close'') (columns d),
      rws = map (\<lambda>t. take j (rws d ! t) @ drop (Suc j) (rws d ! t)) [0..<length (rws d) - 1]\<rparr>"
  have "map (\<lambda>r. map snd (filter (\<lambda>(c, v). c \<notin> set [''Close'', ''Target'']) (zip (columns data) r)))
           (rws data) = rws X"
  proof (rule nth_equalityI)
    show "length (map (\<lambda>r. map snd (filter (\<lambda>(c, v). c \<notin> set [''Close'', ''Target'']) (zip (columns data) r))) (rws data)) = length (rws X)"
      by (simp add: data_def X_def)
  next
    fix t assume "t < length (map (\<lambda>r. map snd (filter (\<lambda>(c, v). c \<notin> set [''Close'', ''Target'']) (zip (columns data) r))) (rws data))"
    then have t: "t < length (rws d) - 1" by (simp add: data_def)
    then have "t < length (rws data)" by (simp add: data_def)
    then show "map (\<lambda>r. map snd (filter (\<lambda>(c, v). c \<notin> set [''Close'', ''Target'']) (zip (columns data) r))) (rws data) ! t = rws X ! t"
      using row [OF t] t by (simp add: X_def)
  qed
  then have dc: "drop_columns data [''Close'', ''Target''] = Inr X"
    using cin cols by (simp add: drop_columns_def X_def data_def)
  have y: "get_col data ''Target'' = Inr (map (\<lambda>r. r ! length (columns d)) (rws data))"
    using get_col_Some [OF tgt] .
  have yt: "map (\<lambda>r. r ! length (columns d)) (rws data) ! t = rws d ! Suc t ! j"
    if t: "t < length (rws d) - 1" for t
  proof -
    have "length (rws d ! t) = length (columns d)"
      using wf_frame_row [OF wf, of t] t by simp
    then show ?thesis
      using t by (simp add: data_def nth_append)
  qed
  define y where "y = map (\<lambda>r. r ! length (columns d)) (rws data)"
  have "baseline_Xy data = Inr (X, y)"
    by (simp add: baseline_Xy_def dc y y_def)
  moreover have "length (rws data) = length (rws d) - 1" by (simp add: data_def)
  moreover have "length y = length (rws d) - 1" by (simp add: y_def data_def)
  moreover have "length (rws X) = length (rws d) - 1" by (simp add: X_def)
  moreover have "columns X = filter (\<lambda>c. c \<noteq> ''Close'') (columns d)" by (simp add: X_def)
  moreover have "\<forall>t < length (rws d) - 1.
                 rws data ! t = rws d ! t @ [rws d ! Suc t ! j]
                 \<and> y ! t = rws d ! Suc t ! j
                 \<and> rws X ! t = take j (rws d ! t) @ drop (Suc j) (rws d ! t)"
    using yt unfolding y_def by (simp add: data_def X_def)
  ultimately show ?thesis
    using bt by blast
qed


lemma ex_frame_wf: "wf_frame ex_frame"
  by (simp add: wf_frame_def ex_frame_def)

lemma ex_frame_close: "index_of (columns ex_frame) ''Close'' = Some 1"
  by (simp add: ex_frame_def)

lemma ex_frame_fresh: "''Target'' \<notin> set (columns ex_frame)"
  by (simp add: ex_frame_def)

lemma ex_frame_nonan: "list_all (\<lambda>r. \<not> list_ex isna r) (rws ex_frame)"
  by (simp add: ex_frame_def isna_def)

theorem baseline_next_day_target_witness:
  "wf_frame ex_frame \<and> index_of (columns ex_frame) ''Close'' = Some 1
   \<and> ''Target'' \<notin> set (columns ex_frame)
   \<and> list_all (\<lambda>r. \<not> list_ex isna r) (rws ex_frame)
   \<and> (\<exists>data X y. baseline_target ex_frame = Inr data \<and> baseline_Xy data = Inr (X, y)
          \<and> length (rws data) = 3 \<and> length y = 3
          \<and> rws data ! 0 = [Fin 1, Fin 2, Fin 3, Fin 5] \<and> y ! 0 = Fin 5
          \<and> rws X ! 0 = [Fin 1, Fin 3])"
proof -
  from baseline_next_day_target [OF ex_frame_wf ex_frame_close ex_frame_fresh ex_frame_nonan]
  obtain data X y where c: "baseline_target ex_frame = Inr data" "baseline_Xy data = Inr (X, y)"
      "length (rws data) = length (rws ex_frame) - 1" "length y = length (rws ex_frame) - 1"
      "\<forall>t < length (rws ex_frame) - 1.
          rws data ! t = rws ex_frame ! t @ [rws ex_frame ! Suc t ! 1]
          \<and> y ! t = rws ex_frame ! Suc t ! 1
          \<and> rws X ! t = take 1 (rws ex_frame ! t) @ drop (Suc 1) (rws ex_frame ! t)"
    by blast
  have "(0::nat) < length (rws ex_frame) - 1" by (simp add: ex_frame_def)
  with c(5) have "rws data ! 0 = rws ex_frame ! 0 @ [rws ex_frame ! Suc 0 ! 1]
          \<and> y ! 0 = rws ex_frame ! Suc 0 ! 1
          \<and> rws X ! 0 = take 1 (rws ex_frame ! 0) @ drop (Suc 1) (rws ex_frame ! 0)"
    by blast
  then have "rws data ! 0 = [Fin 1, Fin 2, Fin 3, Fin 5] \<and> y ! 0 = Fin 5 \<and> rws X ! 0 = [Fin 1, Fin 3]"
    by (simp add: ex_frame_def)
  moreover have "length (rws data) = 3" "length y = 3"
    using c(3,4) by (simp_all add: ex_frame_def)
  ultimately show ?thesis
    using c(1,2) ex_frame_wf ex_frame_close ex_frame_fresh ex_frame_nonan by blast
qed

text \<open>
  C1. The frame that \<open>create_sequences\<close> receives is the one the baseline stage changed
  in place, so it has the column \<open>Target\<close> (next-day close). Every window is made of whole
  rows of that frame, the \<open>Target\<close> cell included, and for every \<open>i\<close> the \<open>Target\<close> cell of
  the last row of the \<open>i\<close>-th window is the \<open>i\<close>-th regression target \<open>y[i]\<close>.
\<close>

theorem sequences_contain_target:
  assumes wf: "wf_frame d"
    and close: "index_of (columns d) ''Close'' = Some j"
    and fresh: "''Target'' \<notin> set (columns d)"
    and nonan: "list_all (\<lambda>r. \<not> list_ex isna r) (rws d)"
    and w: "0 < w" "w < length (rws d) - 1"
  shows "\<exists>data X y jT. baseline_target d = Inr data
           \<and> index_of (columns data) ''Target'' = Some jT
           \<and> create_sequences data w = Inr (X, y)
           \<and> length X = length (rws data) - w \<and> length y = length (rws data) - w
           \<and> (\<forall>i < length (rws data) - w.
                 X ! i = map (\<lambda>k. rws data ! k) [i..<i + w]
                 \<and> length (last (X ! i)) = length (columns data)
                 \<and> last (X ! i) ! jT = y ! i)"
proof -
  define data where "data = \<lparr>columns = columns d @ [''Target''],
      rws = map (\<lambda>t. rws d ! t @ [rws d ! Suc t ! j]) [0..<length (rws d) - 1]\<rparr>"
  define jT where "jT = length (columns d)"
  define X where "X = map (\<lambda>i. iloc_slice data i (i + w)) [0..<length (rws data) - w]"
  define y where "y = map (\<lambda>i. rws data ! (i + w) ! j) [0..<length (rws data) - w]"
  have bt: "baseline_target d = Inr data"
    using baseline_target_eq [OF wf close fresh nonan] by (simp add: data_def)
  have tgt: "index_of (columns data) ''Target'' = Some jT"
    using fresh by (simp add: data_def jT_def index_of_append_new)
  have close': "index_of (columns data) ''Close'' = Some j"
    using index_of_append_old [OF close] by (simp add: data_def)
  have cs: "create_sequences data w = Inr (X, y)"
    using create_sequences_eq [OF close', of w] by (simp add: X_def y_def)
  have n: "length (rws data) = length (rws d) - 1"
    by (simp add: data_def)
  have j: "j < length (columns d)"
    using index_of_SomeD [OF close] by simp
  have main: "X ! i = map (\<lambda>k. rws data ! k) [i..<i + w]
                 \<and> length (last (X ! i)) = length (columns data)
                 \<and> last (X ! i) ! jT = y ! i"
    if i: "i < length (rws data) - w" for i
  proof -
    have Xi: "X ! i = map (\<lambda>k. rws data ! k) [i..<i + w]"
      using i iloc_slice_window [of i w data] by (simp add: X_def)
    have "[i..<i + w] \<noteq> []" using w by simp
    then have "last (X ! i) = rws data ! (i + w - 1)"
      unfolding Xi using w by (simp add: last_map)
    also have "\<dots> = rws d ! (i + w - 1) @ [rws d ! (i + w) ! j]"
      using i w n by (simp add: data_def)
    finally have la: "last (X ! i) = rws d ! (i + w - 1) @ [rws d ! (i + w) ! j]" .
    have l1: "length (rws d ! (i + w - 1)) = length (columns d)"
      using wf_frame_row [OF wf, of "i + w - 1"] i n by simp
    have l2: "length (rws d ! (i + w)) = length (columns d)"
      using wf_frame_row [OF wf, of "i + w"] i n by simp
    have "y ! i = rws data ! (i + w) ! j"
      using i by (simp add: y_def)
    also have "\<dots> = (rws d ! (i + w) @ [rws d ! Suc (i + w) ! j]) ! j"
      using i n by (simp add: data_def)
    also have "\<dots> = rws d ! (i + w) ! j"
      using l2 j by (simp add: nth_append)
    finally have yi: "y ! i = rws d ! (i + w) ! j" .
    show ?thesis
      using Xi la l1 yi by (simp add: jT_def data_def nth_append)
  qed
  have "length X = length (rws data) - w" "length y = length (rws data) - w"
    by (simp_all add: X_def y_def)
  with bt tgt cs main show ?thesis
    by blast
qed

theorem sequences_contain_target_witness:
  "wf_frame ex_frame \<and> index_of (columns ex_frame) ''Close'' = Some 1
   \<and> ''Target'' \<notin> set (columns ex_frame)
   \<and> list_all (\<lambda>r. \<not> list_ex isna r) (rws ex_frame)
   \<and> (0::nat) < 2 \<and> 2 < length (rws ex_frame) - 1
   \<and> (\<exists>data X y jT. baseline_target ex_frame = Inr data
          \<and> index_of (columns data) ''Target'' = Some jT
          \<and> create_sequences data 2 = Inr (X, y)
          \<and> length (rws data) - 2 = 1
          \<and> last (X ! 0) ! jT = y ! 0)"
proof -
  have w1: "(0::nat) < 2" by simp
  have w2: "2 < length (rws ex_frame) - 1" by (simp add: ex_frame_def)
  from sequences_contain_target [OF ex_frame_wf ex_frame_close ex_frame_fresh ex_frame_nonan w1 w2]
  obtain data X y jT where c: "baseline_target ex_frame = Inr data"
      "index_of (columns data) ''Target'' = Some jT" "create_sequences data 2 = Inr (X, y)"
      "\<forall>i < length (rws data) - 2.
                 X ! i = map (\<lambda>k. rws data ! k) [i..<i + 2]
                 \<and> length (last (X ! i)) = length (columns data)
                 \<and> last (X ! i) ! jT = y ! i"
    by blast
  have "baseline_target ex_frame = Inr \<lparr>columns = columns ex_frame @ [''Target''],
                rws = map (\<lambda>t. rws ex_frame ! t @ [rws ex_frame ! Suc t ! 1]) [0..<length (rws ex_frame) - 1]\<rparr>"
    by (rule baseline_target_eq [OF ex_frame_wf ex_frame_close ex_frame_fresh ex_frame_nonan])
  with c(1) have n: "length (rws data) - 2 = 1"
    by (auto simp: ex_frame_def)
  then have "(0::nat) < length (rws data) - 2"
    by simp
  with c(4) have "last (X ! 0) ! jT = y ! 0"
    by blast
  with c(1,2,3) n w1 w2 ex_frame_wf ex_frame_close ex_frame_fresh ex_frame_nonan
  show ?thesis by blast
qed

section \<open>Properties of the row dropping\<close>

text \<open>
  A row whose seven indicator values are all defined is dropped all the same when a
  cell of another column (here the volume) is missing: the rows kept are not the rows with
  defined indicators.
\<close>

theorem dropna_indicator_rows_counterexample:
  "indicators_defined ex_gap (rws ex_gap ! 0) \<and> rws ex_gap ! 0 \<notin> set (rws (dropna ex_gap))
   \<and> rws (dropna ex_gap) \<noteq> filter (indicators_defined ex_gap) (rws ex_gap)"
  by (simp add: indicators_defined_def indicators_to_normalize_def ex_gap_def dropna_def isna_def)

text \<open>
  C7 (amended). The row dropping keeps the columns, and keeps exactly those rows in which
  every value, of whatever column, is defined (not NaN), in their original order; its
  output contains no undefined value, and no row without an undefined value is dropped.
\<close>

theorem dropna_complete_rows:
  "columns (dropna d) = columns d
   \<and> rws (dropna d) = filter (\<lambda>r. \<forall>c \<in> set r. c \<noteq> NaN) (rws d)
   \<and> (\<forall>r \<in> set (rws (dropna d)). \<forall>c \<in> set r. c \<noteq> NaN)
   \<and> (\<forall>r \<in> set (rws d). (\<forall>c \<in> set r. c \<noteq> NaN) \<longrightarrow> r \<in> set (rws (dropna d)))"
  by (auto simp: dropna_def list_ex_iff isna_def intro: filter_cong)

theorem dropna_complete_rows_witness:
  "rws (dropna ex_gap) = [[Fin 1, Fin 7, Fin 1, Fin 1, Fin 1, Fin 1, Fin 50, Fin 0, Fin 1]]
   \<and> columns (dropna ex_gap) = columns ex_gap"
  using dropna_complete_rows [of ex_gap]
  by (simp add: ex_gap_def)

section \<open>Properties of the splits\<close>

lemma floor_four_fifths: "nat \<lfloor>real n * 0.8\<rfloor> = 4 * n div 5"
proof -
  have "real n * 0.8 = real (4 * n) / real 5" by simp
  then have "\<lfloor>real n * 0.8\<rfloor> = int (4 * n div 5)"
    by (simp only: floor_divide_of_nat_eq)
  then show ?thesis by simp
qed

lemma ceil_one_fifth: "nat \<lceil>0.2 * real n\<rceil> = (n + 4) div 5"
proof -
  have "0.2 * real n = real n / real 5" by simp
  then have "\<lceil>0.2 * real n\<rceil> = - \<lfloor>- (real_of_int (int n) / real_of_int 5)\<rfloor>"
    by (simp add: ceiling_def)
  also have "\<dots> = - ((- int n) div 5)"
    using floor_divide_of_int_eq [of "- int n" 5, where ?'a = real] by simp
  finally have "\<lceil>0.2 * real n\<rceil> = - ((- int n) div 5)" .
  then show ?thesis by (simp add: nat_eq_iff) presburger
qed


lemma floor_four_fifths': "nat \<lfloor>0.8 * real n\<rfloor> = 4 * n div 5"
  using floor_four_fifths [of n] by (simp only: mult.commute)

lemma train_rows: "n - (n + 4) div 5 = 4 * n div (5::nat)"
  by linarith

lemma train_rows_pos: "2 \<le> n \<Longrightarrow> 4 * n div (5::nat) \<noteq> 0"
  by linarith

lemma test_rows: "n - 4 * n div 5 \<le> (n + 4) div (5::nat)"
  by linarith

lemma sequence_split_eq:
  "sequence_split X y =
     (take (4 * length X div 5) X, drop (4 * length X div 5) X,
      take (4 * length X div 5) y, drop (4 * length X div 5) y)"
  unfolding sequence_split_def Let_def floor_four_fifths ..

lemma train_test_split_eq:
  assumes "length t = length R" and "2 \<le> length R"
  shows "train_test_split R t =
          Inr (take (4 * length R div 5) R, drop (4 * length R div 5) R,
               take (4 * length R div 5) t, drop (4 * length R div 5) t)"
proof -
  have "take ((length R + 4) div 5) (drop (4 * length R div 5) R) = drop (4 * length R div 5) R"
    using test_rows [of "length R"] by simp
  moreover have "take ((length R + 4) div 5) (drop (4 * length R div 5) t) = drop (4 * length R div 5) t"
    using test_rows [of "length R"] assms(1) by simp
  ultimately show ?thesis
    unfolding train_test_split_def Let_def ceil_one_fifth train_rows
    using assms train_rows_pos [of "length R"] by simp
qed

lemma dated_take: "take k (dated index xs) = dated (take k index) (take k xs)"
  by (simp add: dated_def take_zip)

lemma dated_drop: "drop k (dated index xs) = dated (drop k index) (drop k xs)"
  by (simp add: dated_def drop_zip)

lemma prefix_before_suffix:
  assumes "sorted_wrt (<) index"
  shows "train_before_test (take k (dated index xs)) (drop k (dated index xs))"
proof -
  have "fst a < fst b"
    if a: "a \<in> set (take k (dated index xs))" and b: "b \<in> set (drop k (dated index xs))" for a b
  proof -
    have "a \<in> set (zip (take k index) (take k xs))"
      using a by (simp add: dated_def take_zip)
    then have "fst a \<in> set (take k index)"
      by (metis prod.collapse set_zip_leftD)
    moreover have "b \<in> set (zip (drop k index) (drop k xs))"
      using b by (simp add: dated_def drop_zip)
    then have "fst b \<in> set (drop k index)"
      by (metis prod.collapse set_zip_leftD)
    moreover have "sorted_wrt (<) (take k index @ drop k index)"
      using assms by simp
    ultimately show ?thesis
      unfolding sorted_wrt_append by blast
  qed
  then show ?thesis
    by (simp add: train_before_test_def list_all_iff)
qed

text \<open>
  On a history stored newest first, both splits put the latest days into the training
  set and the earliest into the test set: the training examples come after the test
  examples in time.
\<close>

theorem chronological_splits_counterexample:
  "sequence_split (dated ex_newest_first ex_rows) ex_targets
     = ([(7, [Fin 1]), (6, [Fin 2]), (5, [Fin 3]), (4, [Fin 4]), (3, [Fin 5])],
        [(2, [Fin 6]), (1, [Fin 7])],
        [Fin 2, Fin 3, Fin 4, Fin 5, Fin 6], [Fin 7, Fin 8])
   \<and> train_test_split (dated ex_newest_first ex_rows) (dated ex_newest_first ex_targets)
     = Inr ([(7, [Fin 1]), (6, [Fin 2]), (5, [Fin 3]), (4, [Fin 4]), (3, [Fin 5])],
            [(2, [Fin 6]), (1, [Fin 7])],
            [(7, Fin 2), (6, Fin 3), (5, Fin 4), (4, Fin 5), (3, Fin 6)],
            [(2, Fin 7), (1, Fin 8)])
   \<and> \<not> train_before_test
         [(7, [Fin 1]), (6, [Fin 2]), (5, [Fin 3]), (4, [Fin 4]), (3, [Fin 5 :: fl])]
         [(2, [Fin 6]), (1, [Fin 7])]"
proof -
  have k: "nat \<lfloor>real (length (dated ex_newest_first ex_rows)) * 0.8\<rfloor> = 5"
    unfolding floor_four_fifths by (simp add: dated_def ex_newest_first_def ex_rows_def)
  have t: "nat \<lceil>0.2 * real (length (dated ex_newest_first ex_rows))\<rceil> = 2"
    unfolding ceil_one_fifth by (simp add: dated_def ex_newest_first_def ex_rows_def)
  have "sequence_split (dated ex_newest_first ex_rows) ex_targets
     = ([(7, [Fin 1]), (6, [Fin 2]), (5, [Fin 3]), (4, [Fin 4]), (3, [Fin 5])],
        [(2, [Fin 6]), (1, [Fin 7])],
        [Fin 2, Fin 3, Fin 4, Fin 5, Fin 6], [Fin 7, Fin 8])"
    unfolding sequence_split_def Let_def k
    by (simp add: dated_def ex_newest_first_def ex_rows_def ex_targets_def)
  moreover have "train_test_split (dated ex_newest_first ex_rows) (dated ex_newest_first ex_targets)
     = Inr ([(7, [Fin 1]), (6, [Fin 2]), (5, [Fin 3]), (4, [Fin 4]), (3, [Fin 5])],
            [(2, [Fin 6]), (1, [Fin 7])],
            [(7, Fin 2), (6, Fin 3), (5, Fin 4), (4, Fin 5), (3, Fin 6)],
            [(2, Fin 7), (1, Fin 8)])"
    unfolding train_test_split_def Let_def t
    by (simp add: dated_def ex_newest_first_def ex_rows_def ex_targets_def)
  moreover have "\<not> train_before_test
         [(7, [Fin 1]), (6, [Fin 2]), (5, [Fin 3]), (4, [Fin 4]), (3, [Fin 5 :: fl])]
         [(2, [Fin 6]), (1, [Fin 7])]"
    by (simp add: train_before_test_def)
  ultimately show ?thesis by blast
qed

text \<open>
  C9 (amended). Every train/test split of the pipeline is a prefix split by row position,
  without shuffling and without sorting. For the \<open>n\<close> sequences the training set is the
  first \<open>floor(0.8 * n)\<close> and the test set is the rest, so that training set followed by
  test set is the input again; for the baseline (at least two rows, or scikit-learn
  raises) the training set is the first \<open>floor(0.8 * n)\<close> rows and the test set the
  remaining ones, in order. Every training example precedes every test example in the
  order of the rows, and therefore in time when the rows of the dataset are in strictly
  ascending order of date, which the pipeline takes from the input file and does not
  enforce.
\<close>

theorem chronological_splits:
  "sequence_split X y =
     (take (nat \<lfloor>0.8 * real (length X)\<rfloor>) X, drop (nat \<lfloor>0.8 * real (length X)\<rfloor>) X,
      take (nat \<lfloor>0.8 * real (length X)\<rfloor>) y, drop (nat \<lfloor>0.8 * real (length X)\<rfloor>) y)
   \<and> (case sequence_split X y of
         (X_train, X_test, y_train, y_test) \<Rightarrow> X_train @ X_test = X \<and> y_train @ y_test = y)
   \<and> (length t = length R \<and> 2 \<le> length R \<longrightarrow>
        train_test_split R t =
          Inr (take (nat \<lfloor>0.8 * real (length R)\<rfloor>) R, drop (nat \<lfloor>0.8 * real (length R)\<rfloor>) R,
               take (nat \<lfloor>0.8 * real (length R)\<rfloor>) t, drop (nat \<lfloor>0.8 * real (length R)\<rfloor>) t))
   \<and> (sorted_wrt (<) index \<longrightarrow>
        (case sequence_split (dated (sequence_dates index w) X) y of
           (X_train, X_test, y_train, y_test) \<Rightarrow> train_before_test X_train X_test))
   \<and> (sorted_wrt (<) index \<and> length index = length R \<and> length t = length R
        \<and> 2 \<le> length R \<longrightarrow>
        (\<exists>X_train X_test y_train y_test.
           train_test_split (dated index R) (dated index t) = Inr (X_train, X_test, y_train, y_test)
           \<and> X_train @ X_test = dated index R \<and> y_train @ y_test = dated index t
           \<and> train_before_test X_train X_test \<and> train_before_test y_train y_test))"
  unfolding floor_four_fifths'
proof (intro conjI impI)
  show "sequence_split X y =
     (take (4 * length X div 5) X, drop (4 * length X div 5) X,
      take (4 * length X div 5) y, drop (4 * length X div 5) y)"
    by (rule sequence_split_eq)
next
  show "case sequence_split X y of
         (X_train, X_test, y_train, y_test) \<Rightarrow> X_train @ X_test = X \<and> y_train @ y_test = y"
    unfolding sequence_split_eq by simp
next
  assume "length t = length R \<and> 2 \<le> length R"
  then show "train_test_split R t =
          Inr (take (4 * length R div 5) R, drop (4 * length R div 5) R,
               take (4 * length R div 5) t, drop (4 * length R div 5) t)"
    using train_test_split_eq [of t R] by blast
next
  assume "sorted_wrt (<) index"
  then have "sorted_wrt (<) (sequence_dates index w)"
    unfolding sequence_dates_def by (rule sorted_wrt_drop)
  from prefix_before_suffix [OF this]
  show "case sequence_split (dated (sequence_dates index w) X) y of
           (X_train, X_test, y_train, y_test) \<Rightarrow> train_before_test X_train X_test"
    unfolding sequence_split_eq by simp
next
  assume a: "sorted_wrt (<) index \<and> length index = length R \<and> length t = length R
        \<and> 2 \<le> length R"
  have l: "length (dated index t) = length (dated index R)"
    using a by (simp add: dated_def)
  have two: "2 \<le> length (dated index R)"
    using a by (simp add: dated_def)
  have s: "sorted_wrt (<) index"
    using a by simp
  show "\<exists>X_train X_test y_train y_test.
           train_test_split (dated index R) (dated index t) = Inr (X_train, X_test, y_train, y_test)
           \<and> X_train @ X_test = dated index R \<and> y_train @ y_test = dated index t
           \<and> train_before_test X_train X_test \<and> train_before_test y_train y_test"
    unfolding train_test_split_eq [OF l two]
    using prefix_before_suffix [OF s, of _ R] prefix_before_suffix [OF s, of _ t]
    by simp
qed

theorem chronological_splits_witness:
  "sorted_wrt (<) ex_oldest_first \<and> length ex_oldest_first = length ex_rows
   \<and> length ex_targets = length ex_rows \<and> 2 \<le> length ex_rows
   \<and> sequence_split ex_rows ex_targets
        = ([[Fin 1], [Fin 2], [Fin 3], [Fin 4], [Fin 5]], [[Fin 6], [Fin 7]],
           [Fin 2, Fin 3, Fin 4, Fin 5, Fin 6], [Fin 7, Fin 8])
   \<and> train_test_split ex_rows ex_targets
        = Inr ([[Fin 1], [Fin 2], [Fin 3], [Fin 4], [Fin 5]], [[Fin 6], [Fin 7]],
               [Fin 2, Fin 3, Fin 4, Fin 5, Fin 6], [Fin 7, Fin 8])
   \<and> (\<exists>X_train X_test y_train y_test.
         train_test_split (dated ex_oldest_first ex_rows) (dated ex_oldest_first ex_targets)
           = Inr (X_train, X_test, y_train, y_test)
         \<and> train_before_test X_train X_test)"
proof -
  have h: "sorted_wrt (<) ex_oldest_first" "length ex_oldest_first = length ex_rows"
      "length ex_targets = length ex_rows" "2 \<le> length ex_rows"
    by (simp_all add: ex_oldest_first_def ex_rows_def ex_targets_def)
  have f: "nat \<lfloor>0.8 * real (length ex_rows)\<rfloor> = 5"
    unfolding floor_four_fifths' by (simp add: ex_rows_def)
  note c = chronological_splits [of ex_rows ex_targets ex_targets ex_rows ex_oldest_first 0]
  have "sequence_split ex_rows ex_targets
        = ([[Fin 1], [Fin 2], [Fin 3], [Fin 4], [Fin 5]], [[Fin 6], [Fin 7]],
           [Fin 2, Fin 3, Fin 4, Fin 5, Fin 6], [Fin 7, Fin 8])"
    using c unfolding f by (simp add: ex_rows_def ex_targets_def)
  moreover have "train_test_split ex_rows ex_targets
        = Inr ([[Fin 1], [Fin 2], [Fin 3], [Fin 4], [Fin 5]], [[Fin 6], [Fin 7]],
               [Fin 2, Fin 3, Fin 4, Fin 5, Fin 6], [Fin 7, Fin 8])"
    using c h unfolding f by (simp add: ex_rows_def ex_targets_def)
  moreover have "\<exists>X_train X_test y_train y_test.
         train_test_split (dated ex_oldest_first ex_rows) (dated ex_oldest_first ex_targets)
           = Inr (X_train, X_test, y_train, y_test)
         \<and> train_before_test X_train X_test"
    using c h by blast
  ultimately show ?thesis
    using h by blast
qed

section \<open>Properties of the hyperparameter search\<close>

text \<open>What the loop stores as the error of an entry: the outcome of training on the
  first \<open>floor(0.8 * n)\<close> of the \<open>n\<close> windows of the entry's window size and testing on the
  rest.\<close>

lemma train_set_nonempty:
  assumes "2 \<le> length X"
  shows "take (nat \<lfloor>real (length X) * 0.8\<rfloor>) X \<noteq> []"
proof -
  have "4 * length X div 5 \<noteq> 0"
    using assms by linarith
  moreover have "X \<noteq> []"
    using assms by auto
  ultimately show ?thesis
    by (simp add: floor_four_fifths)
qed

lemma grid_search_loop_eq:
  assumes close: "index_of (columns d) ''Close'' = Some j"
    and long: "\<forall>c \<in> set cs. fst c + 2 \<le> length (rws d)"
  shows "\<exists>new. grid_search_loop net d cs rs = Inr (rs @ new)
           \<and> map config new = concat (map (\<lambda>c. [(LSTM, c), (GRU, c)]) cs)
           \<and> (\<forall>r \<in> set new. \<exists>X y. create_sequences d (window_size r) = Inr (X, y)
                  \<and> mse r = net (model r) (units r) (learning_rate r) (batch_size r)
                               (take (nat \<lfloor>real (length X) * 0.8\<rfloor>) X,
                                take (nat \<lfloor>real (length X) * 0.8\<rfloor>) y)
                               (drop (nat \<lfloor>real (length X) * 0.8\<rfloor>) X,
                                drop (nat \<lfloor>real (length X) * 0.8\<rfloor>) y))"
  using long
proof (induction cs arbitrary: rs)
  case Nil
  then show ?case by simp
next
  case (Cons c cs)
  obtain w u b lr where c: "c = (w, u, b, lr)"
    by (cases c) auto
  have w: "w + 2 \<le> length (rws d)"
    using Cons.prems c by simp
  define X where "X = map (\<lambda>i. iloc_slice d i (i + w)) [0..<length (rws d) - w]"
  define y where "y = map (\<lambda>i. rws d ! (i + w) ! j) [0..<length (rws d) - w]"
  define k where "k = nat \<lfloor>real (length X) * 0.8\<rfloor>"
  have cs': "create_sequences d w = Inr (X, y)"
    using create_sequences_eq [OF close, of w] by (simp add: X_def y_def)
  have len: "2 \<le> length X"
    using w by (simp add: X_def)
  then have ne: "X \<noteq> []"
    by auto
  have tr: "take k X \<noteq> []"
    unfolding k_def by (rule train_set_nonempty [OF len])
  have sp: "sequence_split X y = (take k X, drop k X, take k y, drop k y)"
    unfolding sequence_split_def k_def Let_def ..
  define two where "two =
     [\<lparr>model = LSTM, window_size = w, units = u, batch_size = b, learning_rate = lr,
        mse = net LSTM u lr b (take k X, take k y) (drop k X, drop k y)\<rparr>,
      \<lparr>model = GRU, window_size = w, units = u, batch_size = b, learning_rate = lr,
        mse = net GRU u lr b (take k X, take k y) (drop k X, drop k y)\<rparr>]"
  have step: "grid_search_loop net d (c # cs) rs = grid_search_loop net d cs (rs @ two)"
    using ne tr by (simp add: c cs' sp keras_fit_evaluate_def two_def)
  have "\<forall>c \<in> set cs. fst c + 2 \<le> length (rws d)"
    using Cons.prems by simp
  from Cons.IH [OF this, of "rs @ two"]
  obtain new where new: "grid_search_loop net d cs (rs @ two) = Inr ((rs @ two) @ new)"
      "map config new = concat (map (\<lambda>c. [(LSTM, c), (GRU, c)]) cs)"
      "\<forall>r \<in> set new. \<exists>X y. create_sequences d (window_size r) = Inr (X, y)
                  \<and> mse r = net (model r) (units r) (learning_rate r) (batch_size r)
                               (take (nat \<lfloor>real (length X) * 0.8\<rfloor>) X,
                                take (nat \<lfloor>real (length X) * 0.8\<rfloor>) y)
                               (drop (nat \<lfloor>real (length X) * 0.8\<rfloor>) X,
                                drop (nat \<lfloor>real (length X) * 0.8\<rfloor>) y)"
    by blast
  have cfg: "map config two = [(LSTM, c), (GRU, c)]"
    by (simp add: two_def config_def c)
  have mse2: "\<forall>r \<in> set two. \<exists>X y. create_sequences d (window_size r) = Inr (X, y)
                  \<and> mse r = net (model r) (units r) (learning_rate r) (batch_size r)
                               (take (nat \<lfloor>real (length X) * 0.8\<rfloor>) X,
                                take (nat \<lfloor>real (length X) * 0.8\<rfloor>) y)
                               (drop (nat \<lfloor>real (length X) * 0.8\<rfloor>) X,
                                drop (nat \<lfloor>real (length X) * 0.8\<rfloor>) y)"
    using cs' by (simp add: two_def k_def)
  show ?case
  proof (intro exI [of _ "two @ new"] conjI)
    show "grid_search_loop net d (c # cs) rs = Inr (rs @ two @ new)"
      using step new(1) by simp
    show "map config (two @ new) = concat (map (\<lambda>c. [(LSTM, c), (GRU, c)]) (c # cs))"
      using cfg new(2) by simp
    show "\<forall>r \<in> set (two @ new). \<exists>X y. create_sequences d (window_size r) = Inr (X, y)
                  \<and> mse r = net (model r) (units r) (learning_rate r) (batch_size r)
                               (take (nat \<lfloor>real (length X) * 0.8\<rfloor>) X,
                                take (nat \<lfloor>real (length X) * 0.8\<rfloor>) y)
                               (drop (nat \<lfloor>real (length X) * 0.8\<rfloor>) X,
                                drop (nat \<lfloor>real (length X) * 0.8\<rfloor>) y)"
      using mse2 new(3) by auto
  qed
qed

lemma distinct_both_archs:
  "distinct cs \<Longrightarrow> distinct (concat (map (\<lambda>c. [(LSTM, c), (GRU, c)]) cs))"
  by (induction cs) auto

lemma set_both_archs:
  "set (concat (map (\<lambda>c. [(LSTM, c), (GRU, c)]) cs)) = {LSTM, GRU} \<times> set cs"
  by (induction cs) auto

lemma length_both_archs:
  "length (concat (map (\<lambda>c. [(LSTM, c), (GRU, c)]) cs)) = 2 * length cs"
  by (induction cs) auto

lemma grid_distinct: "distinct grid"
  by (simp add: grid_def distinct_product window_sizes_def units_options_def batch_sizes_def
      learning_rates_def)

lemma grid_length: "length grid = 36"
  by (simp add: grid_def window_sizes_def units_options_def batch_sizes_def learning_rates_def)

lemma grid_set:
  "set grid = set window_sizes \<times> set units_options \<times> set batch_sizes \<times> set learning_rates"
  by (simp add: grid_def)

lemma grid_windows: "c \<in> set grid \<Longrightarrow> fst c \<le> 30"
  by (auto simp: grid_set window_sizes_def)

text \<open>
  C8. On a frame with a \<open>Close\<close> column and at least 32 rows (so that every window size
  leaves a sequence to train on), the search returns a table of exactly 72 entries: for
  each of the 36 combinations of the Cartesian product of the window sizes [10, 20, 30],
  the unit counts [32, 64, 128], the batch sizes [32, 64] and the learning rates
  [0.001, 0.0005], in the order of the product, one LSTM entry followed by one GRU entry;
  no combination of model and hyperparameters appears twice; and the error stored in an
  entry is the outcome of training that model with those hyperparameters on the first
  \<open>floor(0.8 * n)\<close> of the \<open>n\<close> windows of that window size and evaluating it on the
  remaining ones.
\<close>

theorem grid_search_complete:
  assumes close: "index_of (columns d) ''Close'' = Some j"
    and long: "32 \<le> length (rws d)"
  shows "\<exists>results. grid_search net d = Inr results
           \<and> length results = 72
           \<and> map config results = concat (map (\<lambda>c. [(LSTM, c), (GRU, c)]) grid)
           \<and> distinct (map config results)
           \<and> set (map config results)
                = {LSTM, GRU} \<times> ({10, 20, 30} \<times> {32, 64, 128} \<times> {32, 64} \<times> {0.001, 0.0005})
           \<and> length grid = 36
           \<and> (\<forall>r \<in> set results. \<exists>X y. create_sequences d (window_size r) = Inr (X, y)
                  \<and> mse r = net (model r) (units r) (learning_rate r) (batch_size r)
                               (take (nat \<lfloor>real (length X) * 0.8\<rfloor>) X,
                                take (nat \<lfloor>real (length X) * 0.8\<rfloor>) y)
                               (drop (nat \<lfloor>real (length X) * 0.8\<rfloor>) X,
                                drop (nat \<lfloor>real (length X) * 0.8\<rfloor>) y))"
proof -
  have "\<forall>c \<in> set grid. fst c + 2 \<le> length (rws d)"
    using long grid_windows by fastforce
  from grid_search_loop_eq [OF close this, of net "[]"]
  obtain results where r: "grid_search net d = Inr results"
      "map config results = concat (map (\<lambda>c. [(LSTM, c), (GRU, c)]) grid)"
      "\<forall>r \<in> set results. \<exists>X y. create_sequences d (window_size r) = Inr (X, y)
                  \<and> mse r = net (model r) (units r) (learning_rate r) (batch_size r)
                               (take (nat \<lfloor>real (length X) * 0.8\<rfloor>) X,
                                take (nat \<lfloor>real (length X) * 0.8\<rfloor>) y)
                               (drop (nat \<lfloor>real (length X) * 0.8\<rfloor>) X,
                                drop (nat \<lfloor>real (length X) * 0.8\<rfloor>) y)"
    by (auto simp: grid_search_def)
  have "length (map config results) = 72"
    unfolding r(2) by (simp add: length_both_archs grid_length)
  then have "length results = 72" by simp
  moreover have "distinct (map config results)"
    unfolding r(2) by (rule distinct_both_archs [OF grid_distinct])
  moreover have "set (map config results)
                = {LSTM, GRU} \<times> ({10, 20, 30} \<times> {32, 64, 128} \<times> {32, 64} \<times> {0.001, 0.0005})"
    unfolding r(2) set_both_archs grid_set
    by (simp add: window_sizes_def units_options_def batch_sizes_def learning_rates_def)
  ultimately show ?thesis
    using r grid_length by blast
qed

theorem grid_search_complete_witness:
  "index_of (columns ex_flat) ''Close'' = Some 0 \<and> 32 \<le> length (rws ex_flat)
   \<and> (\<exists>results. grid_search (\<lambda>a u lr b train test. real (length (fst train))) ex_flat = Inr results
          \<and> length results = 72 \<and> distinct (map config results))"
proof -
  have h1: "index_of (columns ex_flat) ''Close'' = Some 0"
    by (simp add: ex_flat_def)
  have h2: "32 \<le> length (rws ex_flat)"
    by (simp add: ex_flat_def)
  from grid_search_complete [OF h1 h2, of "\<lambda>a u lr b train test. real (length (fst train))"] h1 h2
  show ?thesis by blast
qed

text \<open>With one row less the widest window leaves a single sequence and an empty
  training set: the search stops with the ValueError of Keras after the 48 entries of
  the window sizes 10 and 20, and returns no table.\<close>

lemma grid_search_loop_append:
  "grid_search_loop net d (cs @ cs') rs =
     (case grid_search_loop net d cs rs of
        Inl e \<Rightarrow> Inl e
      | Inr rs' \<Rightarrow> grid_search_loop net d cs' rs')"
proof (induction cs arbitrary: rs)
  case Nil
  then show ?case by simp
next
  case (Cons c cs)
  obtain w u b lr where c: "c = (w, u, b, lr)"
    by (cases c) auto
  show ?case
    unfolding c using Cons.IH
    by (auto simp: Let_def split: sum.splits prod.splits)
qed

lemma grid_search_loop_no_training_set:
  assumes close: "index_of (columns d) ''Close'' = Some j"
    and one: "length (rws d) = w + 1"
  shows "grid_search_loop net d ((w, u, b, lr) # rest) rs = Inl ValueError"
proof -
  have "create_sequences d w = Inr ([iloc_slice d 0 w], [rws d ! w ! j])"
    using create_sequences_eq [OF close, of w] one by simp
  then show ?thesis
    by (simp add: sequence_split_def keras_fit_evaluate_def)
qed

lemma grid_search_short_history:
  assumes close: "index_of (columns d) ''Close'' = Some j"
    and short: "length (rws d) = 31"
  shows "grid_search net d = Inl ValueError"
proof -
  define rest where "rest = List.product units_options (List.product batch_sizes learning_rates)"
  define pre where "pre = List.product [10, 20 :: nat] rest"
  define post where "post = List.product [30 :: nat] rest"
  have g: "grid = pre @ post"
    by (simp add: grid_def window_sizes_def rest_def pre_def post_def)
  have "\<forall>c \<in> set pre. fst c + 2 \<le> length (rws d)"
    using short by (auto simp: pre_def)
  from grid_search_loop_eq [OF close this, of net "[]"]
  obtain new where new: "grid_search_loop net d pre [] = Inr new"
    by auto
  have p: "post = (30, 32, 32, 1 / 1000) # tl post"
    by (simp add: post_def rest_def units_options_def batch_sizes_def learning_rates_def)
  have "grid_search_loop net d post new = Inl ValueError"
    by (subst p, rule grid_search_loop_no_training_set [OF close]) (simp add: short)
  then show ?thesis
    by (simp add: grid_search_def g grid_search_loop_append new)
qed

section \<open>Properties of the indicators\<close>


lemma rolling_mean_nth:
  "t < length xs \<Longrightarrow>
     rolling_mean n xs ! t =
       (if t + 1 < n then NaN
        else if list_all is_finite (take n (drop (t + 1 - n) xs))
             then Fin (sum_list (map the_fin (take n (drop (t + 1 - n) xs))) / real n)
             else NaN)"
  by (simp add: rolling_mean_def Let_def)















lemma shift_one_nth:
  "k < length xs \<Longrightarrow> shift 1 xs ! k = (if k = 0 then NaN else xs ! (k - 1))"
  by (cases k) (simp_all add: shift_def)

lemma shift_one_length: "length (shift 1 xs) = length xs"
  by (simp add: shift_def)

lemma rolling_mean_finite:
  assumes "t < N"
  shows "rolling_mean n (map (\<lambda>k. Fin (f k)) [0..<N]) ! t =
           (if t + 1 < n then NaN else Fin (sum_list (map f [t + 1 - n..<t + 1]) / real n))"
proof (cases "t + 1 < n")
  case True
  then show ?thesis using assms by (simp add: rolling_mean_nth)
next
  case False
  have "drop (t + 1 - n) (map (\<lambda>k. Fin (f k)) [0..<N]) = map (\<lambda>k. Fin (f k)) [t + 1 - n..<N]"
    by (simp add: drop_map)
  then have win: "take n (drop (t + 1 - n) (map (\<lambda>k. Fin (f k)) [0..<N]))
                = map (\<lambda>k. Fin (f k)) [t + 1 - n..<t + 1]"
    using False assms by (simp add: take_map take_upt)
  have fin: "list_all is_finite (map (\<lambda>k. Fin (f k)) [t + 1 - n..<t + 1])"
    by (simp add: list_all_iff is_finite_def)
  have sm: "map the_fin (map (\<lambda>k. Fin (f k)) [t + 1 - n..<t + 1]) = map f [t + 1 - n..<t + 1]"
    by (simp add: the_fin_def)
  have "rolling_mean n (map (\<lambda>k. Fin (f k)) [0..<N]) ! t =
          (if list_all is_finite (take n (drop (t + 1 - n) (map (\<lambda>k. Fin (f k)) [0..<N])))
           then Fin (sum_list (map the_fin (take n (drop (t + 1 - n) (map (\<lambda>k. Fin (f k)) [0..<N])))) / real n)
           else NaN)"
    using False assms rolling_mean_nth [of t "map (\<lambda>k. Fin (f k)) [0..<N]" n] by simp
  also have "\<dots> = Fin (sum_list (map f [t + 1 - n..<t + 1]) / real n)"
    unfolding win sm using fin by (simp only: if_True)
  finally show ?thesis
    using False by (simp only: if_False)
qed




lemma upt_1_15: "[Suc 0..<15] = [1, 2, 3, 4, 5, 6, 7, 8, 9, 10, 11, 12, 13, 14 :: nat]"
  by (simp add: upt_rec)





lemma row_max_one: "row_max [Fin a, NaN, NaN] = Fin a"
  by (simp add: row_max_def isna_def)

lemma row_max_three: "row_max [Fin a, Fin b, Fin c] = Fin (max a (max b c))"
  by (simp add: row_max_def isna_def max_def)

lemma true_range_finite:
  assumes "length hs = n" and "length ls = n" and "length cs = n"
  shows "true_range (map Fin hs) (map Fin ls) (map Fin cs)
           = map (\<lambda>k. Fin (true_range_abs hs ls cs k)) [0..<n]"
proof (rule nth_equalityI)
  show "length (true_range (map Fin hs) (map Fin ls) (map Fin cs))
          = length (map (\<lambda>k. Fin (true_range_abs hs ls cs k)) [0..<n])"
    using assms by (simp add: true_range_def Let_def shift_one_length)
next
  fix k assume "k < length (true_range (map Fin hs) (map Fin ls) (map Fin cs))"
  then have k: "k < n"
    using assms by (simp add: true_range_def Let_def shift_one_length)
  have sh: "shift 1 (map Fin cs) ! k = (if k = 0 then NaN else Fin (cs ! (k - 1)))"
    using k assms shift_one_nth [of k "map Fin cs"] by simp
  have "true_range (map Fin hs) (map Fin ls) (map Fin cs) ! k
          = row_max [fsub (Fin (hs ! k)) (Fin (ls ! k)),
                     fabs (fsub (Fin (hs ! k)) (shift 1 (map Fin cs) ! k)),
                     fabs (fsub (Fin (ls ! k)) (shift 1 (map Fin cs) ! k))]"
    using k assms by (simp add: true_range_def Let_def shift_one_length)
  also have "\<dots> = Fin (true_range_abs hs ls cs k)"
    unfolding sh by (simp add: fsub_def row_max_one row_max_three true_range_abs_def)
  finally show "true_range (map Fin hs) (map Fin ls) (map Fin cs) ! k
                  = map (\<lambda>k. Fin (true_range_abs hs ls cs k)) [0..<n] ! k"
    using k by simp
qed

lemma ATR_14_finite:
  assumes "length hs = n" and "length ls = n" and "length cs = n" and "t < n"
  shows "ATR_14 (map Fin hs) (map Fin ls) (map Fin cs) ! t
           = (if t < 13 then NaN
              else Fin (sum_list (map (true_range_abs hs ls cs) [t - 13..<t + 1]) / 14))"
  unfolding ATR_14_def true_range_finite [OF assms(1,2,3)]
  using rolling_mean_finite [OF assms(4), of 14 "true_range_abs hs ls cs"] by auto

text \<open>
  C2 (amended). For finite prices, ATR_14 is undefined at the rows \<open>t < 13\<close>, and at every
  row \<open>t \<ge> 13\<close> (counting from 0) it is the arithmetic mean, over the 14 rows ending at \<open>t\<close>,
  of the true range: the greatest of high minus low, the absolute value of high minus
  previous close and the absolute value of low minus previous close, and at row 0, which
  has no previous close, high minus low.
\<close>

theorem atr_mean_true_range:
  assumes "length hs = n" and "length ls = n" and "length cs = n" and "t < n"
  shows "(t < 13 \<longrightarrow> ATR_14 (map Fin hs) (map Fin ls) (map Fin cs) ! t = NaN)
       \<and> (13 \<le> t \<longrightarrow>
            ATR_14 (map Fin hs) (map Fin ls) (map Fin cs) ! t
              = Fin (sum_list (map (true_range_abs hs ls cs) [t - 13..<t + 1]) / 14))"
  using ATR_14_finite [OF assms] by simp

lemma upt_0_14: "[0..<14] = [0, 1, 2, 3, 4, 5, 6, 7, 8, 9, 10, 11, 12, 13 :: nat]"
  by (simp add: upt_rec)

lemma ex_prices_nth:
  "k < 15 \<Longrightarrow> ex_high ! k = 1 / 2 \<and> ex_low ! k = 1 / 4 \<and> ex_close ! k = 1"
  by (simp add: ex_high_def ex_low_def ex_close_def)

lemma ex_true_range_abs:
  "true_range_abs ex_high ex_low ex_close k = (if k = 0 then 1 / 4 else if k < 15 then 3 / 4
      else true_range_abs ex_high ex_low ex_close k)"
proof (cases "k = 0 \<or> 15 \<le> k")
  case True
  then show ?thesis
    using ex_prices_nth [of 0] by (auto simp: true_range_abs_def)
next
  case False
  then have "k < 15" "k - 1 < 15" "k \<noteq> 0" by linarith+
  with ex_prices_nth [of k] ex_prices_nth [of "k - 1"] show ?thesis
    by (simp add: true_range_abs_def)
qed

lemma ex_true_range_spec:
  "0 < k \<Longrightarrow> k < 15 \<Longrightarrow> true_range_spec ex_high ex_low ex_close k = 1 / 4"
  using ex_prices_nth [of k] ex_prices_nth [of "k - 1"]
  by (simp add: true_range_spec_def)

lemma ex_ATR_13: "ATR_14 (map Fin ex_high) (map Fin ex_low) (map Fin ex_close) ! 13 = Fin (5 / 7)"
proof -
  have l: "length ex_high = 15" "length ex_low = 15" "length ex_close = 15" "(13::nat) < 15"
    by (simp_all add: ex_high_def ex_low_def ex_close_def)
  have s: "sum_list (map (true_range_abs ex_high ex_low ex_close) [13 - 13..<13 + 1]) = 10"
    by (simp add: upt_0_14) (simp add: ex_true_range_abs)
  from ATR_14_finite [OF l] show ?thesis
    unfolding s by simp
qed

lemma ex_ATR_14: "ATR_14 (map Fin ex_high) (map Fin ex_low) (map Fin ex_close) ! 14 = Fin (3 / 4)"
proof -
  have l: "length ex_high = 15" "length ex_low = 15" "length ex_close = 15" "(14::nat) < 15"
    by (simp_all add: ex_high_def ex_low_def ex_close_def)
  have s: "sum_list (map (true_range_abs ex_high ex_low ex_close) [14 - 13..<14 + 1]) = 21 / 2"
    by (simp add: upt_1_15) (simp add: ex_true_range_abs)
  from ATR_14_finite [OF l] show ?thesis
    unfolding s by simp
qed

lemma ex_ATR_spec_14: "ATR_14_spec ex_high ex_low ex_close 14 = Fin (1 / 4)"
proof -
  have "sum_list (map (true_range_spec ex_high ex_low ex_close) [14 - 13..<14 + 1]) = 7 / 2"
    by (simp add: upt_1_15) (simp add: ex_true_range_spec)
  then show ?thesis
    by (simp add: ATR_14_spec_def)
qed

text \<open>
  On fifteen days that each trade below the previous close, the code's ATR at row 14 is
  3/4 where the mean of the true ranges without absolute values is 1/4, and the code's
  ATR at row 13 is defined (5/7) where the specification has it undefined.
\<close>

theorem atr_spec_counterexample:
  "ATR_14 (map Fin ex_high) (map Fin ex_low) (map Fin ex_close) ! 14 = Fin (3 / 4)
   \<and> ATR_14_spec ex_high ex_low ex_close 14 = Fin (1 / 4)
   \<and> ATR_14 (map Fin ex_high) (map Fin ex_low) (map Fin ex_close) ! 13 = Fin (5 / 7)
   \<and> ATR_14_spec ex_high ex_low ex_close 13 = NaN
   \<and> ATR_14 (map Fin ex_high) (map Fin ex_low) (map Fin ex_close) ! 14
         \<noteq> ATR_14_spec ex_high ex_low ex_close 14
   \<and> ATR_14 (map Fin ex_high) (map Fin ex_low) (map Fin ex_close) ! 13
         \<noteq> ATR_14_spec ex_high ex_low ex_close 13"
  using ex_ATR_14 ex_ATR_spec_14 ex_ATR_13 by (simp add: ATR_14_spec_def)

theorem atr_mean_true_range_witness:
  "length ex_high = 15 \<and> length ex_low = 15 \<and> length ex_close = 15 \<and> (14::nat) < 15
   \<and> 13 \<le> (14::nat)
   \<and> ATR_14 (map Fin ex_high) (map Fin ex_low) (map Fin ex_close) ! 14 = Fin (3 / 4)"
proof -
  have l: "length ex_high = 15" "length ex_low = 15" "length ex_close = 15" "(14::nat) < 15"
    by (simp_all add: ex_high_def ex_low_def ex_close_def)
  have s: "sum_list (map (true_range_abs ex_high ex_low ex_close) [14 - 13..<14 + 1]) = 21 / 2"
    by (simp add: upt_1_15) (simp add: ex_true_range_abs)
  from atr_mean_true_range [OF l] have "ATR_14 (map Fin ex_high) (map Fin ex_low) (map Fin ex_close) ! 14
              = Fin (sum_list (map (true_range_abs ex_high ex_low ex_close) [14 - 13..<14 + 1]) / 14)"
    by simp
  then have "ATR_14 (map Fin ex_high) (map Fin ex_low) (map Fin ex_close) ! 14 = Fin (3 / 4)"
    unfolding s by simp
  with l show ?thesis by simp
qed

end
